theory Spec2Isabelle
  imports Main "HOL-Library.AList"
begin

section \<open>The bot panel (panel.js) as a state machine\<close>

text \<open>
  The state of the panel: the table \<open>runningBots\<close>, the child processes with their
  \<open>'close'\<close> listeners, the pending timers, the Express route table, the registry file
  \<open>bots.json\<close>, the directory \<open>bots/\<close> of working directories, the panel's own
  environment and the lines sent to the browsers. Every route handler is a function
  from the state to a response and the next state.

  A JavaScript object used as a dictionary is an association list in insertion order:
  \<open>obj[k]\<close> is \<^const>\<open>map_of\<close>, \<open>obj[k] = v\<close> is \<^const>\<open>AList.update\<close> and
  \<open>delete obj[k]\<close> is \<^const>\<open>AList.delete\<close>. For the names of units only own properties
  are modelled; for the keys of an \<open>env\<close>, which a request supplies, the members
  inherited from \<open>Object.prototype\<close> are modelled as well (see \<open>falsy_member\<close> and
  \<open>assign\<close>). The values of \<open>process.env\<close> are strings (\<open>JStr\<close>).

  Left out: the password check, the storage and name filter of multer, the forwarding
  of a child's output to the log, and a \<open>spawn\<close> that fails.
\<close>

subsection \<open>Data\<close>

type_synonym 'v jsobj = "(string \<times> 'v) list"

text \<open>
  JSON values, as \<open>JSON.parse\<close> returns them for a manifest (numbers are taken to be
  integers).
\<close>

datatype json = JNull | JBool bool | JNum int | JStr string
  | JArr "json list" | JObj "(string \<times> json) list"

text \<open>JavaScript truthiness of a JSON value (\<open>if (v)\<close>).\<close>

fun truthy :: "json \<Rightarrow> bool" where
  "truthy JNull = False"
| "truthy (JBool b) = b"
| "truthy (JNum n) = (n \<noteq> 0)"
| "truthy (JStr s) = (s \<noteq> [])"
| "truthy (JArr xs) = True"
| "truthy (JObj kvs) = True"

text \<open>
  A file is represented by what \<open>JSON.parse\<close> makes of its text: a syntax error or a
  value. A directory lists its entries in \<open>readdir\<close> order.
\<close>

datatype parsed = SyntaxError | Parsed json

datatype node = File parsed | Dir "(string \<times> node) list"

datatype fs_error = ENOENT | ENOTDIR | EISDIR | ENOTEMPTY

text \<open>The registry file: \<open>{ bots: { name: { env: { key: value } } } }\<close>.\<close>

record bot_entry =
  env :: "json jsobj"

record db =
  bots :: "bot_entry jsobj"

datatype http_method = GET | POST

text \<open>
  What extraction of an uploaded zip produces: the extracted tree, or a failure that
  leaves some entries behind.
\<close>

datatype archive = Zip "(string \<times> node) list" | BadZip "(string \<times> node) list"

text \<open>
  \<open>req.file\<close> after multer: \<open>stem\<close> is \<open>path.basename(req.file.filename, '.zip')\<close>,
  the name of the unit.
\<close>

record upload =
  stem :: string
  content :: archive

text \<open>
  A request: method, path segments, the two body fields the handlers read
  (\<open>None\<close> is \<open>undefined\<close>) and the uploaded file.
\<close>

record request =
  req_method :: http_method
  req_path :: "string list"
  body_key :: "json option"
  body_value :: "json option"
  req_file :: "upload option"

text \<open>
  The listeners on a child process's \<open>'close'\<close> event: the one \<open>start\<close> attaches with
  \<open>on\<close>, the one \<open>restart\<close> attaches with \<open>once\<close> (it captures the request), and
  the one \<open>install\<close> attaches.
\<close>

datatype listener = StartClose string | RestartOnce request | InstallClose string

record proc =
  p_cmd :: string
  p_args :: "json list"
  p_cwd :: string
  p_env :: "json jsobj"
  p_close :: "listener list"
  p_killed :: bool
  p_exited :: bool

datatype handler = HIndex | HBots | HUpload | HStart | HStop | HRestart | HInstall
  | HDelete | HEnvGet | HEnvPost | HEnvDelete | HNoop

datatype seg = Lit string | Param

record route =
  r_method :: http_method
  r_pattern :: "seg list"
  r_handler :: handler

datatype notice = Log string | StatusUpdate

datatype status = Running | Stopped

datatype response = Text nat string
  | BotList "(string \<times> status) list"
  | EnvJson "json jsobj"
  | Redirect string
  | SendFile string
  | NoRoute
  | NoResponse
  | CallStackExceeded

record state =
  runningBots :: "nat jsobj"
  procs :: "proc list"
  timers :: "(nat \<times> request) list"
  routes :: "route list"
  db_file :: "db option"
  bots_fs :: "(string \<times> node) list"
  process_env :: "json jsobj"
  emitted :: "notice list"

text \<open>
  \<open>Text\<close> is \<open>res.status(code).send(body)\<close>; \<open>NoRoute\<close> is the 404 of Express when no
  route matches; \<open>NoResponse\<close> is a handler that returns without answering;
  \<open>CallStackExceeded\<close> is the \<open>RangeError\<close> of a call stack that is used up. The error
  responses of the handlers get the names the specification gives the errors.
\<close>

abbreviation AlreadyRunning :: response where
  "AlreadyRunning \<equiv> Text 400 ''Bot is already running.''"

abbreviation EntrypointNotFound :: response where
  "EntrypointNotFound \<equiv> Text 404 ''Bot main script not found.''"

abbreviation NotRunning :: response where
  "NotRunning \<equiv> Text 400 ''Bot is not running.''"

abbreviation BusyRunning :: response where
  "BusyRunning \<equiv> Text 400 ''Bot is running. Stop it first.''"

abbreviation BotNotFound :: response where
  "BotNotFound \<equiv> Text 404 ''Bot not found''"

abbreviation VariableNotFound :: response where
  "VariableNotFound \<equiv> Text 404 ''Variable not found.''"

subsection \<open>Database helpers and logging\<close>

text \<open>
  \<open>readDb\<close>: a file that does not parse (\<open>None\<close>) is reset to the empty registry. A
  file that parses is taken to have the shape of a registry.
\<close>

definition readDb :: "state \<Rightarrow> db \<times> state" where
  "readDb s = (case db_file s of
      Some d \<Rightarrow> (d, s)
    | None \<Rightarrow> (\<lparr>bots = []\<rparr>, s\<lparr>db_file := Some \<lparr>bots = []\<rparr>\<rparr>))"

definition writeDb :: "db \<Rightarrow> state \<Rightarrow> state" where
  "writeDb d s = s\<lparr>db_file := Some d\<rparr>"

definition sendLog :: "string \<Rightarrow> string \<Rightarrow> state \<Rightarrow> state" where
  "sendLog botname message s =
     s\<lparr>emitted := emitted s @ [Log (''['' @ botname @ '']: '' @ message)]\<rparr>"

definition status_update :: "state \<Rightarrow> state" where
  "status_update s = s\<lparr>emitted := emitted s @ [StatusUpdate]\<rparr>"

subsection \<open>GET /api/bots\<close>

definition api_bots :: "state \<Rightarrow> response \<times> state" where
  "api_bots s =
     (let (d, s1) = readDb s
      in (BotList (map (\<lambda>botName.
              (botName, if map_of (runningBots s1) botName \<noteq> None then Running else Stopped))
            (map fst (bots d))), s1))"

subsection \<open>Entry point resolution and start\<close>

text \<open>The two conventional file names, probed in order with \<open>existsSync\<close>.\<close>

definition probe :: "(string \<times> node) list \<Rightarrow> json option" where
  "probe dir =
     (if map_of dir ''index.js'' \<noteq> None then Some (JStr ''index.js'')
      else if map_of dir ''bot.js'' \<noteq> None then Some (JStr ''bot.js'')
      else None)"

text \<open>
  \<open>getMainScript\<close>: the argument is what lies at \<open>botPath\<close>. Reading a directory
  named \<open>package.json\<close>, a syntax error and a property access on \<open>null\<close> all throw
  inside the \<open>try\<close> and are ignored; a primitive or an array has no \<open>main\<close>.
\<close>

definition getMainScript :: "node option \<Rightarrow> json option" where
  "getMainScript botPath = (case botPath of
      Some (Dir dir) \<Rightarrow>
        (case map_of dir ''package.json'' of
           Some (File (Parsed (JObj pkg))) \<Rightarrow>
             (case map_of pkg ''main'' of
                Some m \<Rightarrow> if truthy m then Some m else probe dir
              | None \<Rightarrow> probe dir)
         | _ \<Rightarrow> probe dir)
    | _ \<Rightarrow> None)"

text \<open>
  Object spread \<open>{ ...target, ...src }\<close>: for each own key of \<open>src\<close>, in order, the
  value \<open>src[key]\<close> is stored under that key.
\<close>

definition spread :: "'v jsobj \<Rightarrow> 'v jsobj \<Rightarrow> 'v jsobj" where
  "spread target src =
     foldl (\<lambda>acc k. case map_of src k of Some v \<Rightarrow> AList.update k v acc | None \<Rightarrow> acc)
       target (map fst src)"

definition spawn :: "string \<Rightarrow> json list \<Rightarrow> string \<Rightarrow> json jsobj \<Rightarrow> proc" where
  "spawn cmd args cwd e =
     \<lparr>p_cmd = cmd, p_args = args, p_cwd = cwd, p_env = e, p_close = [],
      p_killed = False, p_exited = False\<rparr>"

definition on_close :: "listener \<Rightarrow> proc \<Rightarrow> proc" where
  "on_close l p = p\<lparr>p_close := p_close p @ [l]\<rparr>"

definition api_start :: "string \<Rightarrow> state \<Rightarrow> response \<times> state" where
  "api_start botname s =
     (if map_of (runningBots s) botname \<noteq> None then (AlreadyRunning, s)
      else case getMainScript (map_of (bots_fs s) botname) of
        None \<Rightarrow> (EntrypointNotFound, s)
      | Some mainScript \<Rightarrow>
          (let (d, s1) = readDb s;
               botEnv = (case map_of (bots d) botname of Some b \<Rightarrow> env b | None \<Rightarrow> []);
               e = spread (spread [] (process_env s1)) botEnv;
               botProcess = on_close (StartClose botname) (spawn ''node'' [mainScript] botname e);
               s2 = s1\<lparr>procs := procs s1 @ [botProcess],
                       runningBots := AList.update botname (length (procs s1)) (runningBots s1)\<rparr>
           in (Text 200 ''Bot started'',
               status_update (sendLog botname ''--- starting... ---'' s2))))"

subsection \<open>Stop, install, delete\<close>

text \<open>\<open>child.kill()\<close>: the termination request is recorded on the process.\<close>

definition kill :: "nat \<Rightarrow> proc list \<Rightarrow> proc list" where
  "kill pid ps = (if pid < length ps then ps[pid := (ps ! pid)\<lparr>p_killed := True\<rparr>] else ps)"

definition attach :: "nat \<Rightarrow> listener \<Rightarrow> proc list \<Rightarrow> proc list" where
  "attach pid l ps = (if pid < length ps then ps[pid := on_close l (ps ! pid)] else ps)"

definition api_stop :: "string \<Rightarrow> state \<Rightarrow> response \<times> state" where
  "api_stop botname s = (case map_of (runningBots s) botname of
      None \<Rightarrow> (NotRunning, s)
    | Some pid \<Rightarrow>
        (Text 200 ''Bot stopping'',
         sendLog botname ''--- stopping... ---'' (s\<lparr>procs := kill pid (procs s)\<rparr>)))"

definition has_manifest :: "node option \<Rightarrow> bool" where
  "has_manifest botPath = (case botPath of
      Some (Dir dir) \<Rightarrow> map_of dir ''package.json'' \<noteq> None
    | _ \<Rightarrow> False)"

definition api_install :: "string \<Rightarrow> state \<Rightarrow> response \<times> state" where
  "api_install botname s =
     (if map_of (runningBots s) botname \<noteq> None then (BusyRunning, s)
      else if \<not> has_manifest (map_of (bots_fs s) botname)
        then (Text 400 ''No package.json found.'', s)
      else
        (let s1 = sendLog botname ''--- Running \"npm install\"... ---'' s;
             installProcess = on_close (InstallClose botname)
                                (spawn ''npm'' [JStr ''install''] botname (process_env s1))
         in (Text 200 ''Install process started.'',
             s1\<lparr>procs := procs s1 @ [installProcess]\<rparr>)))"

definition api_delete :: "string \<Rightarrow> state \<Rightarrow> response \<times> state" where
  "api_delete botname s =
     (if map_of (runningBots s) botname \<noteq> None then (BusyRunning, s)
      else
        (let (d, s1) = readDb s;
             s2 = s1\<lparr>bots_fs := AList.delete botname (bots_fs s1)\<rparr>;
             s3 = (if map_of (bots d) botname \<noteq> None
                   then writeDb (d\<lparr>bots := AList.delete botname (bots d)\<rparr>) s2
                   else s2)
         in (Text 200 ''Bot deleted'',
             status_update (sendLog botname ''--- Bot project deleted successfully. ---'' s3))))"

subsection \<open>Environment variable endpoints\<close>

text \<open>
  The body fields \<open>key\<close> and \<open>value\<close> are whatever \<open>express.json()\<close> parsed: any JSON
  value, or \<open>undefined\<close> (\<open>None\<close>) when the field is absent. \<open>!x\<close> on such a field:
\<close>

definition falsy :: "json option \<Rightarrow> bool" where
  "falsy x = (case x of None \<Rightarrow> True | Some v \<Rightarrow> \<not> truthy v)"

text \<open>
  A value used as a property name, or inside a template literal, is converted to a
  string: an array is the join of its elements by commas (\<open>null\<close> elements are empty),
  so \<open>[]\<close> is the empty string; any object is \<open>[object Object]\<close>.
\<close>

fun decimal :: "nat \<Rightarrow> string" where
  "decimal n =
     (if n < 10 then [''0123456789'' ! n]
      else decimal (n div 10) @ [''0123456789'' ! (n mod 10)])"

declare decimal.simps [simp del]

fun js_string :: "json \<Rightarrow> string"
  and js_join :: "json list \<Rightarrow> string" where
  "js_string JNull = ''null''"
| "js_string (JBool b) = (if b then ''true'' else ''false'')"
| "js_string (JNum n) = (if n < 0 then ''-'' @ decimal (nat (- n)) else decimal (nat n))"
| "js_string (JStr s) = s"
| "js_string (JArr xs) = js_join xs"
| "js_string (JObj kvs) = ''[object Object]''"
| "js_join [] = []"
| "js_join [x] = (if x = JNull then [] else js_string x)"
| "js_join (x # y # ys) = (if x = JNull then [] else js_string x) @ '','' @ js_join (y # ys)"

text \<open>
  The objects of the registry are plain objects, so an \<open>env\<close> inherits the members of
  \<open>Object.prototype\<close>. Reading \<open>env[k]\<close> for a name \<open>k\<close> that \<open>env\<close> does not hold
  itself gives the inherited member (a function or an object, so truthy) when \<open>k\<close> is
  one of these names, and \<open>undefined\<close> otherwise. \<open>falsy_member env k\<close> is \<open>!env[k]\<close>.
\<close>

definition object_prototype :: "string list" where
  "object_prototype =
     [''constructor'', ''__defineGetter__'', ''__defineSetter__'', ''hasOwnProperty'',
      ''__lookupGetter__'', ''__lookupSetter__'', ''isPrototypeOf'', ''propertyIsEnumerable'',
      ''toString'', ''valueOf'', ''__proto__'', ''toLocaleString'']"

definition falsy_member :: "json jsobj \<Rightarrow> string \<Rightarrow> bool" where
  "falsy_member obj k = (case map_of obj k of
      Some v \<Rightarrow> \<not> truthy v
    | None \<Rightarrow> k \<notin> set object_prototype)"

text \<open>
  The assignment \<open>env[k] = v\<close>. For the name \<open>__proto__\<close>, when \<open>env\<close> holds no property
  of that name itself (one can only come from the file), the assignment goes to the
  setter inherited from \<open>Object.prototype\<close>: no property is created, and what
  \<open>JSON.stringify\<close> writes is unchanged.
\<close>

definition assign :: "string \<Rightarrow> 'v \<Rightarrow> 'v jsobj \<Rightarrow> 'v jsobj" where
  "assign k v obj =
     (if k = ''__proto__'' \<and> map_of obj k = None then obj else AList.update k v obj)"

definition api_env_get :: "string \<Rightarrow> state \<Rightarrow> response \<times> state" where
  "api_env_get botname s =
     (let (d, s1) = readDb s
      in case map_of (bots d) botname of
           None \<Rightarrow> (BotNotFound, s1)
         | Some b \<Rightarrow> (EnvJson (env b), s1))"

definition api_env_post :: "string \<Rightarrow> json option \<Rightarrow> json option \<Rightarrow> state \<Rightarrow> response \<times> state" where
  "api_env_post botname key val s =
     (case (key, val) of
        (Some k, Some v) \<Rightarrow>
          if falsy key then (Text 400 ''Key and Value are required.'', s)
          else
            (let (d, s1) = readDb s
             in case map_of (bots d) botname of
                  None \<Rightarrow> (BotNotFound, s1)
                | Some b \<Rightarrow>
                    (let b' = b\<lparr>env := assign (js_string k) v (env b)\<rparr>;
                         s2 = writeDb (d\<lparr>bots := AList.update botname b' (bots d)\<rparr>) s1
                     in (Text 200 ''Variable saved.'',
                         sendLog botname
                           (''--- Env variable ['' @ js_string k @ ''] added/updated. ---'') s2)))
      | _ \<Rightarrow> (Text 400 ''Key and Value are required.'', s))"

definition api_env_delete :: "string \<Rightarrow> json option \<Rightarrow> state \<Rightarrow> response \<times> state" where
  "api_env_delete botname key s =
     (case key of
        None \<Rightarrow> (Text 400 ''Key is required.'', s)
      | Some k \<Rightarrow>
          if falsy key then (Text 400 ''Key is required.'', s)
          else
            (let (d, s1) = readDb s
             in case map_of (bots d) botname of
                  None \<Rightarrow> (VariableNotFound, s1)
                | Some b \<Rightarrow>
                    if falsy_member (env b) (js_string k) then (VariableNotFound, s1)
                    else
                      (let b' = b\<lparr>env := AList.delete (js_string k) (env b)\<rparr>;
                           s2 = writeDb (d\<lparr>bots := AList.update botname b' (bots d)\<rparr>) s1
                       in (Text 200 ''Variable deleted.'',
                           sendLog botname
                             (''--- Env variable ['' @ js_string k @ ''] deleted. ---'') s2))))"

subsection \<open>POST /api/upload\<close>

text \<open>
  \<open>fs.promises.rename(path.join(nestedPath, file), path.join(extractPath, file))\<close> on
  the working directory \<open>d\<close>, with \<open>nestedPath\<close> its entry \<open>w\<close>: as \<open>rename(2)\<close>, a
  file cannot replace a directory and a directory can only replace an empty one.
\<close>

definition rename_up :: "string \<Rightarrow> string \<Rightarrow> (string \<times> node) list \<Rightarrow> fs_error + (string \<times> node) list" where
  "rename_up w f d = (case map_of d w of
      Some (Dir inner) \<Rightarrow>
        (case map_of inner f of
           None \<Rightarrow> Inl ENOENT
         | Some n \<Rightarrow>
             (let moved = AList.update f n (AList.update w (Dir (AList.delete f inner)) d)
              in case (map_of d f, n) of
                   (None, _) \<Rightarrow> Inr moved
                 | (Some (File _), File _) \<Rightarrow> Inr moved
                 | (Some (File _), Dir _) \<Rightarrow> Inl ENOTDIR
                 | (Some (Dir t), File _) \<Rightarrow> Inl EISDIR
                 | (Some (Dir t), Dir _) \<Rightarrow> if t = [] then Inr moved else Inl ENOTEMPTY))
    | Some (File _) \<Rightarrow> Inl ENOTDIR
    | None \<Rightarrow> Inl ENOENT)"

text \<open>
  The loop \<open>for (const file of nestedFiles)\<close>: the first rename that throws ends it,
  with the directory as it is by then.
\<close>

fun promote :: "string \<Rightarrow> string list \<Rightarrow> (string \<times> node) list \<Rightarrow> fs_error option \<times> (string \<times> node) list" where
  "promote w [] d = (None, d)"
| "promote w (f # fs) d = (case rename_up w f d of
      Inl e \<Rightarrow> (Some e, d)
    | Inr d' \<Rightarrow> promote w fs d')"

definition rmdir :: "string \<Rightarrow> (string \<times> node) list \<Rightarrow> fs_error option \<times> (string \<times> node) list" where
  "rmdir w d = (case map_of d w of
      Some (Dir []) \<Rightarrow> (None, AList.delete w d)
    | Some (Dir (x # xs)) \<Rightarrow> (Some ENOTEMPTY, d)
    | Some (File _) \<Rightarrow> (Some ENOTDIR, d)
    | None \<Rightarrow> (Some ENOENT, d))"

text \<open>
  The block "Auto-fix nested directories": it runs once on the extracted directory,
  when \<open>readdir\<close> gives one name and that entry is a directory.
\<close>

definition autofix :: "(string \<times> node) list \<Rightarrow> fs_error option \<times> (string \<times> node) list" where
  "autofix d = (case d of
      [(w, Dir inner)] \<Rightarrow>
        (case promote w (map fst inner) d of
           (Some e, d') \<Rightarrow> (Some e, d')
         | (None, d') \<Rightarrow> rmdir w d')
    | _ \<Rightarrow> (None, d))"

definition nested_notice :: "string \<Rightarrow> (string \<times> node) list \<Rightarrow> state \<Rightarrow> state" where
  "nested_notice botName d s = (case d of
      [(w, Dir inner)] \<Rightarrow>
        sendLog botName ''--- Nested directory detected. Promoting contents... ---'' s
    | _ \<Rightarrow> s)"

definition upload_failed :: "string \<Rightarrow> state \<Rightarrow> response \<times> state" where
  "upload_failed botName s =
     (Text 500 ''Error processing upload.'',
      sendLog botName (''--- Error uploading '' @ botName @ '' ---'') s)"

text \<open>
  The handler, run to completion (the interleavings at its \<open>await\<close>s are not modelled).
  The text of the caught error is left out of the log line.
\<close>

definition api_upload :: "upload option \<Rightarrow> state \<Rightarrow> response \<times> state" where
  "api_upload file s = (case file of
      None \<Rightarrow> (Text 400 ''No file uploaded.'', s)
    | Some f \<Rightarrow>
        (let botName = stem f;
             s1 = (case map_of (runningBots s) botName of
                     Some pid \<Rightarrow>
                       sendLog botName ''--- Bot stopped for upgrade... ---''
                         (s\<lparr>procs := kill pid (procs s),
                            runningBots := AList.delete botName (runningBots s)\<rparr>)
                   | None \<Rightarrow> s);
             fs1 = AList.delete botName (bots_fs s1)
         in case content f of
              BadZip partial \<Rightarrow>
                upload_failed botName (s1\<lparr>bots_fs := AList.update botName (Dir partial) fs1\<rparr>)
            | Zip extracted \<Rightarrow>
                (case autofix extracted of
                   (Some e, d) \<Rightarrow>
                     upload_failed botName
                       (nested_notice botName extracted
                          (s1\<lparr>bots_fs := AList.update botName (Dir d) fs1\<rparr>))
                 | (None, d) \<Rightarrow>
                     (let s2 = nested_notice botName extracted
                                 (s1\<lparr>bots_fs := AList.update botName (Dir d) fs1\<rparr>);
                          (dbv, s3) = readDb s2;
                          dbv' = (if map_of (bots dbv) botName \<noteq> None then dbv
                                  else dbv\<lparr>bots := AList.update botName \<lparr>env = []\<rparr> (bots dbv)\<rparr>);
                          s4 = writeDb dbv' s3
                      in (Redirect ''/'',
                          status_update
                            (sendLog botName (''--- '' @ botName @ '' uploaded/upgraded successfully. ---'')
                               s4))))))"

subsection \<open>Routing, restart, and the events of the environment\<close>

text \<open>
  A route pattern matches a path segment by segment; \<open>:botname\<close> binds one non-empty
  segment. The first matching route of the table handles the request.
\<close>

fun match_path :: "seg list \<Rightarrow> string list \<Rightarrow> string option option" where
  "match_path [] [] = Some None"
| "match_path (Lit l # ps) (x # xs) = (if l = x then match_path ps xs else None)"
| "match_path (Param # ps) (x # xs) =
     (if x = [] then None
      else case match_path ps xs of None \<Rightarrow> None | Some _ \<Rightarrow> Some (Some x))"
| "match_path _ _ = None"

fun find_route :: "route list \<Rightarrow> request \<Rightarrow> (handler \<times> string) option" where
  "find_route [] req = None"
| "find_route (r # rs) req =
     (if r_method r = req_method req
      then case match_path (r_pattern r) (req_path req) of
             Some p \<Rightarrow> Some (r_handler r, case p of Some b \<Rightarrow> b | None \<Rightarrow> [])
           | None \<Rightarrow> find_route rs req
      else find_route rs req)"

text \<open>\<open>app.get(path, handler)\<close> appends a route to the table and returns \<open>app\<close>.\<close>

definition app_get :: "seg list \<Rightarrow> handler \<Rightarrow> state \<Rightarrow> state" where
  "app_get pattern h s =
     s\<lparr>routes := routes s @ [\<lparr>r_method = GET, r_pattern = pattern, r_handler = h\<rparr>]\<rparr>"

definition start_pattern :: "seg list" where
  "start_pattern = [Lit ''api'', Lit ''start'', Param]"

definition initial_routes :: "route list" where
  "initial_routes =
    [\<lparr>r_method = GET, r_pattern = [], r_handler = HIndex\<rparr>,
     \<lparr>r_method = GET, r_pattern = [Lit ''api'', Lit ''bots''], r_handler = HBots\<rparr>,
     \<lparr>r_method = POST, r_pattern = [Lit ''api'', Lit ''upload''], r_handler = HUpload\<rparr>,
     \<lparr>r_method = GET, r_pattern = start_pattern, r_handler = HStart\<rparr>,
     \<lparr>r_method = GET, r_pattern = [Lit ''api'', Lit ''stop'', Param], r_handler = HStop\<rparr>,
     \<lparr>r_method = GET, r_pattern = [Lit ''api'', Lit ''restart'', Param], r_handler = HRestart\<rparr>,
     \<lparr>r_method = GET, r_pattern = [Lit ''api'', Lit ''install'', Param], r_handler = HInstall\<rparr>,
     \<lparr>r_method = GET, r_pattern = [Lit ''api'', Lit ''delete'', Param], r_handler = HDelete\<rparr>,
     \<lparr>r_method = GET, r_pattern = [Lit ''api'', Lit ''env'', Param], r_handler = HEnvGet\<rparr>,
     \<lparr>r_method = POST, r_pattern = [Lit ''api'', Lit ''env'', Param], r_handler = HEnvPost\<rparr>,
     \<lparr>r_method = POST, r_pattern = [Lit ''api'', Lit ''env'', Lit ''delete'', Param],
      r_handler = HEnvDelete\<rparr>]"

text \<open>
  \<open>app(req, res)\<close> hands the request to the route table, which selects the handler by
  the request's own method and path. The restart handler calls it: in
  \<open>app.get('/api/start/:botname', () => {})(req, res)\<close> the call \<open>app.get\<close> registers a
  route whose handler does nothing and returns \<open>app\<close>, and \<open>app\<close> is then applied to
  the request being handled. The first argument bounds the depth of the call stack:
  when it is used up the call ends with \<open>CallStackExceeded\<close>.
\<close>

fun dispatch :: "nat \<Rightarrow> request \<Rightarrow> state \<Rightarrow> response \<times> state"
  and api_restart :: "nat \<Rightarrow> string \<Rightarrow> request \<Rightarrow> state \<Rightarrow> response \<times> state" where
  "dispatch 0 req s = (CallStackExceeded, s)"
| "dispatch (Suc depth) req s = (case find_route (routes s) req of
      None \<Rightarrow> (NoRoute, s)
    | Some (h, botname) \<Rightarrow>
        (case h of
           HIndex \<Rightarrow> (SendFile ''index.html'', s)
         | HBots \<Rightarrow> api_bots s
         | HUpload \<Rightarrow> api_upload (req_file req) s
         | HStart \<Rightarrow> api_start botname s
         | HStop \<Rightarrow> api_stop botname s
         | HRestart \<Rightarrow> api_restart depth botname req s
         | HInstall \<Rightarrow> api_install botname s
         | HDelete \<Rightarrow> api_delete botname s
         | HEnvGet \<Rightarrow> api_env_get botname s
         | HEnvPost \<Rightarrow> api_env_post botname (body_key req) (body_value req) s
         | HEnvDelete \<Rightarrow> api_env_delete botname (body_key req) s
         | HNoop \<Rightarrow> (NoResponse, s)))"
| "api_restart depth botname req s = (case map_of (runningBots s) botname of
      Some pid \<Rightarrow>
        (NoResponse, s\<lparr>procs := kill pid (attach pid (RestartOnce req) (procs s))\<rparr>)
    | None \<Rightarrow> dispatch depth req (app_get start_pattern HNoop s))"

text \<open>
  A child process closes: its \<open>'close'\<close> listeners run in the order they were attached,
  and the \<open>once\<close> listeners are detached. \<open>code\<close> is the text of the exit code.
\<close>

fun is_once :: "listener \<Rightarrow> bool" where
  "is_once (RestartOnce req) = True"
| "is_once _ = False"

fun run_listener :: "string \<Rightarrow> listener \<Rightarrow> state \<Rightarrow> state" where
  "run_listener code (StartClose botname) s =
     status_update
       ((sendLog botname (''--- stopped with code '' @ code @ '' ---'') s)
          \<lparr>runningBots := AList.delete botname (runningBots s)\<rparr>)"
| "run_listener code (RestartOnce req) s = s\<lparr>timers := timers s @ [(1000, req)]\<rparr>"
| "run_listener code (InstallClose botname) s =
     sendLog botname (''--- \"npm install\" finished (code '' @ code @ '') ---'') s"

definition proc_close :: "nat \<Rightarrow> string \<Rightarrow> state \<Rightarrow> state" where
  "proc_close pid code s =
     (if pid < length (procs s) \<and> \<not> p_exited (procs s ! pid)
      then
        (let p = procs s ! pid;
             s1 = s\<lparr>procs := (procs s)[pid := p\<lparr>p_exited := True,
                                  p_close := filter (\<lambda>l. \<not> is_once l) (p_close p)\<rparr>]\<rparr>
         in foldl (\<lambda>st l. run_listener code l st) s1 (p_close p))
      else s)"

text \<open>
  A pending timer fires: the callback that \<open>restart\<close> passed to \<open>setTimeout\<close> runs on a
  fresh call stack of the given depth.
\<close>

definition timer_fire :: "nat \<Rightarrow> nat \<Rightarrow> state \<Rightarrow> response \<times> state" where
  "timer_fire depth i s =
     (if i < length (timers s)
      then dispatch depth (snd (timers s ! i))
             (app_get start_pattern HNoop (s\<lparr>timers := take i (timers s) @ drop (Suc i) (timers s)\<rparr>))
      else (NoResponse, s))"

subsection \<open>Runs of the panel\<close>

text \<open>
  The state after start-up (sections 2 and 3 of the file), on a fresh installation:
  both folders exist and are empty and the registry file holds \<open>{ bots: {} }\<close>.
\<close>

definition init :: "json jsobj \<Rightarrow> state" where
  "init penv =
     \<lparr>runningBots = [], procs = [], timers = [], routes = initial_routes,
      db_file = Some \<lparr>bots = []\<rparr>, bots_fs = [], process_env = penv, emitted = []\<rparr>"

definition get_request :: "string list \<Rightarrow> request" where
  "get_request path =
     \<lparr>req_method = GET, req_path = path, body_key = None, body_value = None, req_file = None\<rparr>"

definition post_request :: "string list \<Rightarrow> json option \<Rightarrow> json option \<Rightarrow> request" where
  "post_request path key val =
     \<lparr>req_method = POST, req_path = path, body_key = key, body_value = val, req_file = None\<rparr>"

definition upload_request :: "upload \<Rightarrow> request" where
  "upload_request f =
     \<lparr>req_method = POST, req_path = [''api'', ''upload''], body_key = None, body_value = None,
      req_file = Some f\<rparr>"

text \<open>
  What happens to the panel: a request arrives, a child process closes, a timer fires.
  Each is handled to completion before the next.
\<close>

datatype event = Request request | Close nat string | Timer nat

fun step :: "nat \<Rightarrow> event \<Rightarrow> state \<Rightarrow> state" where
  "step depth (Request req) s = snd (dispatch depth req s)"
| "step depth (Close pid code) s = proc_close pid code s"
| "step depth (Timer i) s = snd (timer_fire depth i s)"

definition run :: "nat \<Rightarrow> event list \<Rightarrow> state \<Rightarrow> state" where
  "run depth evs s = foldl (\<lambda>st ev. step depth ev st) s evs"

subsection \<open>The scenario of the specification\<close>

text \<open>
  The archive \<open>echo-bot.zip\<close> holding \<open>index.js\<close> (not JSON, so \<open>JSON.parse\<close> would
  reject it), uploaded to a fresh panel, then started or given two variables.
\<close>

definition demo_env :: "json jsobj" where
  "demo_env = [(''PATH'', JStr ''/usr/bin''), (''HOME'', JStr ''/root'')]"

definition echo_bot :: upload where
  "echo_bot = \<lparr>stem = ''echo-bot'', content = Zip [(''index.js'', File SyntaxError)]\<rparr>"

definition echo_deployed :: state where
  "echo_deployed = step 3 (Request (upload_request echo_bot)) (init demo_env)"

definition echo_running :: state where
  "echo_running = step 3 (Request (get_request [''api'', ''start'', ''echo-bot''])) echo_deployed"

definition echo_configured :: state where
  "echo_configured =
     run 3 [Request (post_request [''api'', ''env'', ''echo-bot'']
                       (Some (JStr ''PATH'')) (Some (JStr ''/opt/bin''))),
            Request (post_request [''api'', ''env'', ''echo-bot'']
                       (Some (JStr ''TOKEN'')) (Some (JStr [])))]
       echo_deployed"

text \<open>The same panel after a request whose \<open>key\<close> is the empty array and whose \<open>value\<close> is the empty string.\<close>

definition echo_empty_key :: state where
  "echo_empty_key =
     step 3 (Request (post_request [''api'', ''env'', ''echo-bot''] (Some (JArr [])) (Some (JStr []))))
       echo_deployed"

definition restart_echo :: request where
  "restart_echo = get_request [''api'', ''restart'', ''echo-bot'']"

section \<open>Properties\<close>

subsection \<open>Association lists and object spread\<close>

lemma update_absent_appends:
  "map_of al k = None \<Longrightarrow> AList.update k v al = al @ [(k, v)]"
  by (induction al) (auto split: if_splits)

lemma map_of_copy:
  "map_of (foldl (\<lambda>acc k. case map_of src k of Some v \<Rightarrow> AList.update k v acc | None \<Rightarrow> acc) t ks) k =
     (if k \<in> set ks \<and> map_of src k \<noteq> None then map_of src k else map_of t k)"
proof (induction ks arbitrary: t)
  case Nil
  then show ?case by simp
next
  case (Cons a ks)
  show ?case
    by (cases "map_of src a") (auto simp: Cons.IH update_conv')
qed

lemma map_of_spread: "map_of (spread t src) = map_of t ++ map_of src"
proof
  fix k
  have "k \<in> set (map fst src) \<longleftrightarrow> map_of src k \<noteq> None"
    by (simp add: map_of_eq_None_iff)
  then show "map_of (spread t src) k = (map_of t ++ map_of src) k"
    unfolding spread_def map_of_copy
    by (auto simp: map_add_def split: option.splits)
qed

subsection \<open>The scenario, evaluated\<close>

lemmas panel_defs = api_bots_def api_start_def api_stop_def api_install_def api_delete_def
  api_env_get_def api_env_post_def api_env_delete_def api_upload_def upload_failed_def
  nested_notice_def autofix_def rmdir_def rename_up_def getMainScript_def probe_def
  readDb_def writeDb_def sendLog_def status_update_def spread_def spawn_def on_close_def
  kill_def attach_def falsy_def falsy_member_def assign_def app_get_def start_pattern_def initial_routes_def
  proc_close_def timer_fire_def init_def get_request_def post_request_def upload_request_def
  run_def Let_def numeral_3_eq_3

lemma echo_deployed_eq:
  "echo_deployed =
     \<lparr>runningBots = [], procs = [], timers = [], routes = initial_routes,
      db_file = Some \<lparr>bots = [(''echo-bot'', \<lparr>env = []\<rparr>)]\<rparr>,
      bots_fs = [(''echo-bot'', Dir [(''index.js'', File SyntaxError)])],
      process_env = demo_env,
      emitted = [Log ''[echo-bot]: --- echo-bot uploaded/upgraded successfully. ---'', StatusUpdate]\<rparr>"
  by (simp add: echo_deployed_def echo_bot_def panel_defs)

lemma echo_running_eq:
  "echo_running =
     \<lparr>runningBots = [(''echo-bot'', 0)],
      procs = [\<lparr>p_cmd = ''node'', p_args = [JStr ''index.js''], p_cwd = ''echo-bot'',
                p_env = demo_env, p_close = [StartClose ''echo-bot''],
                p_killed = False, p_exited = False\<rparr>],
      timers = [], routes = initial_routes,
      db_file = Some \<lparr>bots = [(''echo-bot'', \<lparr>env = []\<rparr>)]\<rparr>,
      bots_fs = [(''echo-bot'', Dir [(''index.js'', File SyntaxError)])],
      process_env = demo_env,
      emitted = [Log ''[echo-bot]: --- echo-bot uploaded/upgraded successfully. ---'', StatusUpdate,
                 Log ''[echo-bot]: --- starting... ---'', StatusUpdate]\<rparr>"
  by (simp add: echo_running_def echo_deployed_eq panel_defs demo_env_def)

lemma echo_configured_eq:
  "echo_configured =
     \<lparr>runningBots = [], procs = [], timers = [], routes = initial_routes,
      db_file = Some \<lparr>bots = [(''echo-bot'', \<lparr>env = [(''PATH'', JStr ''/opt/bin''), (''TOKEN'', JStr [])]\<rparr>)]\<rparr>,
      bots_fs = [(''echo-bot'', Dir [(''index.js'', File SyntaxError)])],
      process_env = demo_env,
      emitted = [Log ''[echo-bot]: --- echo-bot uploaded/upgraded successfully. ---'', StatusUpdate,
                 Log ''[echo-bot]: --- Env variable [PATH] added/updated. ---'',
                 Log ''[echo-bot]: --- Env variable [TOKEN] added/updated. ---'']\<rparr>"
  by (simp add: echo_configured_def echo_deployed_eq panel_defs)

subsection \<open>The listing and the running table\<close>

text \<open>
  Claim C1. At any state of the panel (so at every point between two operations), the
  listing names the registered units in registry order, and reports a registered unit
  \<open>U\<close> as Running exactly when \<open>runningBots\<close> has an entry for \<open>U\<close>, and as Stopped
  exactly when it has none. Listing changes nothing.
\<close>

theorem listing_reflects_running_table:
  assumes "db_file s = Some d" and "U \<in> fst ` set (bots d)"
  shows "\<exists>l. api_bots s = (BotList l, s) \<and> map fst l = map fst (bots d)
           \<and> ((U, Running) \<in> set l \<longleftrightarrow> map_of (runningBots s) U \<noteq> None)
           \<and> ((U, Stopped) \<in> set l \<longleftrightarrow> map_of (runningBots s) U = None)"
  using assms
  by (auto simp: api_bots_def readDb_def comp_def image_iff)

theorem listing_reflects_running_table_witness:
  "db_file echo_running = Some \<lparr>bots = [(''echo-bot'', \<lparr>env = []\<rparr>)]\<rparr>
   \<and> map_of (runningBots echo_running) ''echo-bot'' = Some 0
   \<and> api_bots echo_running = (BotList [(''echo-bot'', Running)], echo_running)
   \<and> api_bots echo_deployed = (BotList [(''echo-bot'', Stopped)], echo_deployed)"
proof -
  have d: "db_file echo_running = Some \<lparr>bots = [(''echo-bot'', \<lparr>env = []\<rparr>)]\<rparr>"
    by (simp add: echo_running_eq)
  have u: "''echo-bot'' \<in> fst ` set (bots \<lparr>bots = [(''echo-bot'', \<lparr>env = []\<rparr>)]\<rparr>)"
    by simp
  from listing_reflects_running_table[OF d u]
  obtain l where "api_bots echo_running = (BotList l, echo_running)"
    and "map fst l = [''echo-bot'']" and "(''echo-bot'', Running) \<in> set l"
    by (auto simp: echo_running_eq)
  moreover from this(2) obtain st where "l = [(''echo-bot'', st)]"
    by (cases l) auto
  ultimately have "api_bots echo_running = (BotList [(''echo-bot'', Running)], echo_running)"
    by auto
  moreover have "api_bots echo_deployed = (BotList [(''echo-bot'', Stopped)], echo_deployed)"
    by (simp add: echo_deployed_eq api_bots_def readDb_def)
  ultimately show ?thesis
    using d by (simp add: echo_running_eq)
qed

subsection \<open>Guards of start and delete\<close>

text \<open>
  Claim C4. When \<open>runningBots\<close> holds an entry for \<open>U\<close>, \<open>start(U)\<close> answers
  AlreadyRunning and the whole state is as before: no process is spawned and the
  running table is unchanged.
\<close>

theorem start_already_running:
  assumes "map_of (runningBots s) U = Some pid"
  shows "api_start U s = (AlreadyRunning, s)
       \<and> procs (snd (api_start U s)) = procs s
       \<and> runningBots (snd (api_start U s)) = runningBots s"
  using assms by (simp add: api_start_def)

theorem start_already_running_witness:
  "map_of (runningBots echo_running) ''echo-bot'' = Some 0
   \<and> api_start ''echo-bot'' echo_running = (AlreadyRunning, echo_running)
   \<and> length (procs (snd (api_start ''echo-bot'' echo_running))) = 1"
proof -
  have h: "map_of (runningBots echo_running) ''echo-bot'' = Some 0"
    by (simp add: echo_running_eq)
  from start_already_running[OF h] show ?thesis
    using h by (simp add: echo_running_eq)
qed

text \<open>
  Claim C8. When \<open>runningBots\<close> holds an entry for \<open>U\<close>, \<open>delete(U)\<close> answers
  BusyRunning and the whole state is as before: the working directory and the
  registry entry of \<open>U\<close> are untouched.
\<close>

theorem delete_while_running:
  assumes "map_of (runningBots s) U = Some pid"
  shows "api_delete U s = (BusyRunning, s)
       \<and> bots_fs (snd (api_delete U s)) = bots_fs s
       \<and> db_file (snd (api_delete U s)) = db_file s"
  using assms by (simp add: api_delete_def)

theorem delete_while_running_witness:
  "map_of (runningBots echo_running) ''echo-bot'' = Some 0
   \<and> api_delete ''echo-bot'' echo_running = (BusyRunning, echo_running)
   \<and> map_of (bots_fs (snd (api_delete ''echo-bot'' echo_running))) ''echo-bot''
       = Some (Dir [(''index.js'', File SyntaxError)])
   \<and> db_file (snd (api_delete ''echo-bot'' echo_running))
       = Some \<lparr>bots = [(''echo-bot'', \<lparr>env = []\<rparr>)]\<rparr>"
proof -
  have h: "map_of (runningBots echo_running) ''echo-bot'' = Some 0"
    by (simp add: echo_running_eq)
  from delete_while_running[OF h] show ?thesis
    using h by (simp add: echo_running_eq)
qed

subsection \<open>The environment of a started process\<close>

text \<open>
  Claim C5. When \<open>start(U)\<close> spawns the process of a registered unit \<open>U\<close>, the
  environment it passes is the panel's own environment overlaid with \<open>U\<close>'s persisted
  \<open>env\<close>: as a mapping it is \<open>process.env ++ env\<close>, so a key of \<open>U\<close>'s \<open>env\<close> has
  \<open>U\<close>'s value and any other key has the panel's value.
\<close>

theorem start_resolves_environment:
  assumes "map_of (runningBots s) U = None"
    and "getMainScript (map_of (bots_fs s) U) = Some m"
    and "db_file s = Some d" and "map_of (bots d) U = Some b"
  shows "\<exists>p. fst (api_start U s) = Text 200 ''Bot started''
           \<and> procs (snd (api_start U s)) = procs s @ [p]
           \<and> map_of (runningBots (snd (api_start U s))) U = Some (length (procs s))
           \<and> map_of (p_env p) = map_of (process_env s) ++ map_of (env b)
           \<and> (\<forall>k v. map_of (env b) k = Some v \<longrightarrow> map_of (p_env p) k = Some v)
           \<and> (\<forall>k. map_of (env b) k = None \<longrightarrow> map_of (p_env p) k = map_of (process_env s) k)"
  using assms
  by (simp add: api_start_def readDb_def Let_def status_update_def sendLog_def
      on_close_def spawn_def map_of_spread update_conv' map_add_def)

theorem start_resolves_environment_witness:
  "map_of (runningBots echo_configured) ''echo-bot'' = None
   \<and> getMainScript (map_of (bots_fs echo_configured) ''echo-bot'') = Some (JStr ''index.js'')
   \<and> (\<exists>p. procs (snd (api_start ''echo-bot'' echo_configured)) = [p]
          \<and> map_of (p_env p) ''PATH'' = Some (JStr ''/opt/bin'')
          \<and> map_of (p_env p) ''HOME'' = Some (JStr ''/root'')
          \<and> map_of (p_env p) ''TOKEN'' = Some (JStr []))"
proof -
  have r: "map_of (runningBots echo_configured) ''echo-bot'' = None"
    by (simp add: echo_configured_eq)
  have m: "getMainScript (map_of (bots_fs echo_configured) ''echo-bot'') = Some (JStr ''index.js'')"
    by (simp add: echo_configured_eq getMainScript_def probe_def)
  have d: "db_file echo_configured
             = Some \<lparr>bots = [(''echo-bot'', \<lparr>env = [(''PATH'', JStr ''/opt/bin''), (''TOKEN'', JStr [])]\<rparr>)]\<rparr>"
    by (simp add: echo_configured_eq)
  have b: "map_of (bots \<lparr>bots = [(''echo-bot'', \<lparr>env = [(''PATH'', JStr ''/opt/bin''), (''TOKEN'', JStr [])]\<rparr>)]\<rparr>)
             ''echo-bot'' = Some \<lparr>env = [(''PATH'', JStr ''/opt/bin''), (''TOKEN'', JStr [])]\<rparr>"
    by simp
  from start_resolves_environment[OF r m d b]
  obtain p where p: "procs (snd (api_start ''echo-bot'' echo_configured)) = procs echo_configured @ [p]"
    and e: "map_of (p_env p) = map_of (process_env echo_configured)
               ++ map_of (env \<lparr>env = [(''PATH'', JStr ''/opt/bin''), (''TOKEN'', JStr [])]\<rparr>)"
    by blast
  have "procs (snd (api_start ''echo-bot'' echo_configured)) = [p]"
    using p by (simp add: echo_configured_eq)
  moreover have "map_of (p_env p) ''PATH'' = Some (JStr ''/opt/bin'')"
    and "map_of (p_env p) ''HOME'' = Some (JStr ''/root'')" and "map_of (p_env p) ''TOKEN'' = Some (JStr [])"
    unfolding e by (simp_all add: echo_configured_eq demo_env_def)
  ultimately show ?thesis using r m by blast
qed

subsection \<open>Entry point resolution\<close>

lemma readDb_unchanged:
  "procs (snd (readDb s)) = procs s" "runningBots (snd (readDb s)) = runningBots s"
  "bots_fs (snd (readDb s)) = bots_fs s" "process_env (snd (readDb s)) = process_env s"
  by (simp_all add: readDb_def split: option.splits)

lemma getMainScript_None:
  assumes "getMainScript (Some (Dir dir)) = None"
  shows "map_of dir ''index.js'' = None \<and> map_of dir ''bot.js'' = None \<and>
     \<not> (\<exists>pkg m. map_of dir ''package.json'' = Some (File (Parsed (JObj pkg)))
                \<and> map_of pkg ''main'' = Some m \<and> truthy m)"
  using assms
  by (auto simp: getMainScript_def probe_def
      split: option.splits node.splits parsed.splits json.splits if_splits)

text \<open>
  Claim C9. If the working directory of \<open>U\<close> holds a \<open>package.json\<close> that parses to an
  object whose \<open>main\<close> is truthy, then \<open>getMainScript\<close> returns that value whatever else
  the directory holds, and \<open>start(U)\<close>, past its AlreadyRunning guard, spawns
  \<open>node\<close> on it in the working directory: nothing looks the named file up. And
  \<open>start(U)\<close> answers EntrypointNotFound only when \<open>U\<close> has no running instance and its
  working directory has no such manifest, no \<open>index.js\<close> and no \<open>bot.js\<close>.
\<close>

theorem manifest_main_unchecked:
  "(map_of (bots_fs s) U = Some (Dir dir)
      \<and> map_of dir ''package.json'' = Some (File (Parsed (JObj pkg)))
      \<and> map_of pkg ''main'' = Some m \<and> truthy m \<and> map_of (runningBots s) U = None
    \<longrightarrow> getMainScript (map_of (bots_fs s) U) = Some m
        \<and> (\<exists>p. fst (api_start U s) = Text 200 ''Bot started''
              \<and> procs (snd (api_start U s)) = procs s @ [p]
              \<and> p_cmd p = ''node'' \<and> p_args p = [m] \<and> p_cwd p = U
              \<and> map_of (runningBots (snd (api_start U s))) U = Some (length (procs s))))
   \<and> (fst (api_start U s) = EntrypointNotFound
    \<longrightarrow> map_of (runningBots s) U = None
        \<and> (\<forall>dir. map_of (bots_fs s) U = Some (Dir dir)
              \<longrightarrow> map_of dir ''index.js'' = None \<and> map_of dir ''bot.js'' = None
                  \<and> \<not> (\<exists>pkg m. map_of dir ''package.json'' = Some (File (Parsed (JObj pkg)))
                             \<and> map_of pkg ''main'' = Some m \<and> truthy m)))"
proof (intro conjI impI)
  assume h: "map_of (bots_fs s) U = Some (Dir dir)
      \<and> map_of dir ''package.json'' = Some (File (Parsed (JObj pkg)))
      \<and> map_of pkg ''main'' = Some m \<and> truthy m \<and> map_of (runningBots s) U = None"
  then show g: "getMainScript (map_of (bots_fs s) U) = Some m"
    by (simp add: getMainScript_def)
  from h g show "\<exists>p. fst (api_start U s) = Text 200 ''Bot started''
              \<and> procs (snd (api_start U s)) = procs s @ [p]
              \<and> p_cmd p = ''node'' \<and> p_args p = [m] \<and> p_cwd p = U
              \<and> map_of (runningBots (snd (api_start U s))) U = Some (length (procs s))"
    by (simp add: api_start_def split_beta Let_def status_update_def sendLog_def
        on_close_def spawn_def update_conv' readDb_unchanged)
next
  assume e: "fst (api_start U s) = EntrypointNotFound"
  then show "map_of (runningBots s) U = None"
    by (auto simp: api_start_def split: if_splits)
  from e have n: "getMainScript (map_of (bots_fs s) U) = None"
    by (auto simp: api_start_def Let_def split_beta split: option.splits if_splits)
  show "\<forall>dir. map_of (bots_fs s) U = Some (Dir dir)
              \<longrightarrow> map_of dir ''index.js'' = None \<and> map_of dir ''bot.js'' = None
                  \<and> \<not> (\<exists>pkg m. map_of dir ''package.json'' = Some (File (Parsed (JObj pkg)))
                             \<and> map_of pkg ''main'' = Some m \<and> truthy m)"
    using n getMainScript_None by auto
qed

text \<open>
  The witness: a manifest naming \<open>missing.js\<close>, in a directory that holds nothing else,
  is started; a directory holding only a read-me is not.
\<close>

theorem manifest_main_unchecked_witness:
  "fst (api_start ''echo-bot''
          (echo_deployed\<lparr>bots_fs := [(''echo-bot'',
             Dir [(''package.json'', File (Parsed (JObj [(''main'', JStr ''missing.js'')])))])]\<rparr>))
     = Text 200 ''Bot started''
   \<and> map (\<lambda>p. (p_cmd p, p_args p)) (procs (snd (api_start ''echo-bot''
          (echo_deployed\<lparr>bots_fs := [(''echo-bot'',
             Dir [(''package.json'', File (Parsed (JObj [(''main'', JStr ''missing.js'')])))])]\<rparr>))))
     = [(''node'', [JStr ''missing.js''])]
   \<and> fst (api_start ''echo-bot''
          (echo_deployed\<lparr>bots_fs := [(''echo-bot'', Dir [(''README.md'', File SyntaxError)])]\<rparr>))
     = EntrypointNotFound
   \<and> map_of [(''README.md'', File SyntaxError)] ''index.js'' = None"
proof -
  let ?s = "echo_deployed\<lparr>bots_fs := [(''echo-bot'',
             Dir [(''package.json'', File (Parsed (JObj [(''main'', JStr ''missing.js'')])))])]\<rparr>"
  let ?t = "echo_deployed\<lparr>bots_fs := [(''echo-bot'', Dir [(''README.md'', File SyntaxError)])]\<rparr>"
  have "\<exists>p. fst (api_start ''echo-bot'' ?s) = Text 200 ''Bot started''
          \<and> procs (snd (api_start ''echo-bot'' ?s)) = procs ?s @ [p]
          \<and> p_cmd p = ''node'' \<and> p_args p = [JStr ''missing.js''] \<and> p_cwd p = ''echo-bot''
          \<and> map_of (runningBots (snd (api_start ''echo-bot'' ?s))) ''echo-bot'' = Some (length (procs ?s))"
    using manifest_main_unchecked[of ?s "''echo-bot''"
        "[(''package.json'', File (Parsed (JObj [(''main'', JStr ''missing.js'')])))]"
        "[(''main'', JStr ''missing.js'')]" "JStr ''missing.js''"]
    by (simp add: echo_deployed_eq)
  then have a: "fst (api_start ''echo-bot'' ?s) = Text 200 ''Bot started''"
    and b: "map (\<lambda>p. (p_cmd p, p_args p)) (procs (snd (api_start ''echo-bot'' ?s)))
              = [(''node'', [JStr ''missing.js''])]"
    by (auto simp: echo_deployed_eq)
  have c: "fst (api_start ''echo-bot'' ?t) = EntrypointNotFound"
    by (simp add: echo_deployed_eq api_start_def getMainScript_def probe_def)
  from c manifest_main_unchecked[of ?t "''echo-bot''"]
  have "map_of [(''README.md'', File SyntaxError)] ''index.js'' = None"
    by simp
  with a b c show ?thesis by simp
qed

subsection \<open>Environment variables\<close>

lemma echo_empty_key_eq:
  "echo_empty_key =
     \<lparr>runningBots = [], procs = [], timers = [], routes = initial_routes,
      db_file = Some \<lparr>bots = [(''echo-bot'', \<lparr>env = [([], JStr [])]\<rparr>)]\<rparr>,
      bots_fs = [(''echo-bot'', Dir [(''index.js'', File SyntaxError)])],
      process_env = demo_env,
      emitted = [Log ''[echo-bot]: --- echo-bot uploaded/upgraded successfully. ---'', StatusUpdate,
                 Log ''[echo-bot]: --- Env variable [] added/updated. ---'']\<rparr>"
  by (simp add: echo_empty_key_def echo_deployed_eq panel_defs)

text \<open>
  Claim C10, as stated, fails for the empty key. The request
  \<open>{"key": [], "value": ""}\<close> passes the guard of \<open>setEnvVar\<close> (an array is truthy) and
  binds the empty string, as a property name, to the empty string. For that key \<open>K\<close>
  the persisted value is a falsy string, yet \<open>deleteEnvVar(U, K)\<close> answers 400
  "Key is required.", not 404 "Variable not found.".
\<close>

theorem delete_falsy_value_counterexample:
  "db_file echo_empty_key = Some \<lparr>bots = [(''echo-bot'', \<lparr>env = [([], JStr [])]\<rparr>)]\<rparr>
   \<and> api_env_delete ''echo-bot'' (Some (JStr [])) echo_empty_key
       = (Text 400 ''Key is required.'', echo_empty_key)"
  by (simp add: echo_empty_key_eq api_env_delete_def falsy_def)

text \<open>
  Claim C10, amended. For a registered unit \<open>U\<close> and a non-empty key \<open>K\<close> whose
  persisted value in \<open>U\<close>'s \<open>env\<close> is falsy (the empty string, for one),
  \<open>deleteEnvVar(U, K)\<close> answers 404 "Variable not found." and the state, registry
  included, is as before: \<open>K\<close> stays bound.
\<close>

theorem delete_falsy_value_not_found:
  assumes "db_file s = Some d" and "map_of (bots d) U = Some b"
    and "K \<noteq> []" and "map_of (env b) K = Some v" and "\<not> truthy v"
  shows "api_env_delete U (Some (JStr K)) s = (VariableNotFound, s)
       \<and> db_file (snd (api_env_delete U (Some (JStr K)) s)) = Some d"
  using assms
  by (simp add: api_env_delete_def falsy_def falsy_member_def readDb_def)

theorem delete_falsy_value_not_found_witness:
  "map_of [(''PATH'', JStr ''/opt/bin''), (''TOKEN'', JStr [])] ''TOKEN'' = Some (JStr [])
   \<and> \<not> truthy (JStr [])
   \<and> api_env_delete ''echo-bot'' (Some (JStr ''TOKEN'')) echo_configured
       = (VariableNotFound, echo_configured)
   \<and> db_file (snd (api_env_delete ''echo-bot'' (Some (JStr ''TOKEN'')) echo_configured))
       = Some \<lparr>bots = [(''echo-bot'', \<lparr>env = [(''PATH'', JStr ''/opt/bin''), (''TOKEN'', JStr [])]\<rparr>)]\<rparr>"
proof -
  have d: "db_file echo_configured
             = Some \<lparr>bots = [(''echo-bot'', \<lparr>env = [(''PATH'', JStr ''/opt/bin''), (''TOKEN'', JStr [])]\<rparr>)]\<rparr>"
    by (simp add: echo_configured_eq)
  have b: "map_of (bots \<lparr>bots = [(''echo-bot'', \<lparr>env = [(''PATH'', JStr ''/opt/bin''), (''TOKEN'', JStr [])]\<rparr>)]\<rparr>)
             ''echo-bot'' = Some \<lparr>env = [(''PATH'', JStr ''/opt/bin''), (''TOKEN'', JStr [])]\<rparr>"
    by simp
  have k: "''TOKEN'' \<noteq> []"
    by simp
  have v: "map_of (env \<lparr>env = [(''PATH'', JStr ''/opt/bin''), (''TOKEN'', JStr [])]\<rparr>) ''TOKEN''
             = Some (JStr [])"
    by simp
  have f: "\<not> truthy (JStr [])"
    by simp
  from delete_falsy_value_not_found[OF d b k v f] show ?thesis
    using d by simp
qed




subsection \<open>Flattening an uploaded archive\<close>

text \<open>
  Renaming an entry of the wrapper onto the wrapper itself fails: the target is a
  directory that is not empty (it still holds the entry).
\<close>

lemma rename_up_self:
  "map_of d w = Some (Dir inner) \<Longrightarrow> map_of inner w = Some n \<Longrightarrow> \<exists>e. rename_up w w d = Inl e"
  by (cases inner; cases n) (auto simp: rename_up_def)

lemma rename_up_keeps_wrapper:
  assumes "rename_up w f d = Inr d'" and "map_of d w = Some (Dir inner)" and "map_of inner w = Some n"
  shows "f \<noteq> w \<and> map_of d' w = Some (Dir (AList.delete f inner)) \<and> map_of (AList.delete f inner) w = Some n"
proof -
  have fw: "f \<noteq> w"
    using rename_up_self[OF assms(2,3)] assms(1) by auto
  have "d' = AList.update f (the (map_of inner f)) (AList.update w (Dir (AList.delete f inner)) d)"
    using assms(1,2)
    by (auto simp: rename_up_def Let_def split: option.splits node.splits if_splits)
  then show ?thesis
    using fw assms(3) by (simp add: update_conv' delete_conv')
qed

lemma promote_collision:
  "map_of d w = Some (Dir inner) \<Longrightarrow> map_of inner w = Some n \<Longrightarrow> w \<in> set fs \<Longrightarrow>
     fst (promote w fs d) \<noteq> None \<and>
     (\<exists>inner'. map_of (snd (promote w fs d)) w = Some (Dir inner') \<and> map_of inner' w = Some n)"
proof (induction fs arbitrary: d inner)
  case Nil
  then show ?case by simp
next
  case (Cons f fs)
  show ?case
  proof (cases "rename_up w f d")
    case (Inl e)
    then show ?thesis using Cons.prems by simp
  next
    case (Inr d')
    from rename_up_keeps_wrapper[OF Inr Cons.prems(1,2)]
    have fw: "f \<noteq> w" and w': "map_of d' w = Some (Dir (AList.delete f inner))"
      and n': "map_of (AList.delete f inner) w = Some n" by auto
    from fw Cons.prems(3) have "w \<in> set fs" by auto
    from Cons.IH[OF w' n' this] show ?thesis using Inr by simp
  qed
qed

lemma autofix_collision:
  assumes "map_of inner w = Some n"
  shows "fst (autofix [(w, Dir inner)]) \<noteq> None \<and>
     (\<exists>inner'. map_of (snd (autofix [(w, Dir inner)])) w = Some (Dir inner') \<and> map_of inner' w = Some n)"
proof -
  have "w \<in> set (map fst inner)"
    using assms by (metis map_of_eq_None_iff option.distinct(1) set_map)
  from promote_collision[of "[(w, Dir inner)]" w inner n "map fst inner", OF _ assms this]
  show ?thesis
    by (auto simp: autofix_def split: prod.splits option.splits)
qed

lemma promote_moves:
  "distinct (map fst rest) \<Longrightarrow> w \<notin> fst ` set rest \<Longrightarrow> w \<notin> fst ` set done \<Longrightarrow>
   fst ` set done \<inter> fst ` set rest = {} \<Longrightarrow>
   promote w (map fst rest) ((w, Dir rest) # done) = (None, (w, Dir []) # done @ rest)"
proof (induction rest arbitrary: "done")
  case Nil
  then show ?case by simp
next
  case (Cons a rest)
  obtain f n where a: "a = (f, n)" by (cases a)
  have fw: "f \<noteq> w" using Cons.prems(2) a by auto
  have fd: "map_of done f = None"
    using Cons.prems(4) a by (auto simp: map_of_eq_None_iff)
  have fr: "f \<notin> fst ` set rest" using Cons.prems(1) a by auto
  have del: "AList.delete f rest = rest"
    using fr by (simp add: delete_id)
  have upd: "AList.update f n done = done @ [(f, n)]"
    using fd by (rule update_absent_appends)
  have step: "rename_up w f ((w, Dir (a # rest)) # done) = Inr ((w, Dir rest) # done @ [(f, n)])"
    using fw fd by (simp add: rename_up_def a del upd)
  have "promote w (map fst rest) ((w, Dir rest) # (done @ [(f, n)])) = (None, (w, Dir []) # (done @ [(f, n)]) @ rest)"
    using Cons.prems a fr by (intro Cons.IH) auto
  then show ?case using step by (simp add: a)
qed

lemma autofix_flattens:
  assumes "distinct (map fst inner)" and "map_of inner w = None"
  shows "autofix [(w, Dir inner)] = (None, inner)"
proof -
  have "w \<notin> fst ` set inner" using assms(2) by (simp add: map_of_eq_None_iff)
  with promote_moves[of inner w "[]"] assms(1)
  have "promote w (map fst inner) [(w, Dir inner)] = (None, (w, Dir []) # inner)" by simp
  moreover have "AList.delete w inner = inner"
    using \<open>w \<notin> fst ` set inner\<close> by (simp add: delete_id)
  ultimately show ?thesis
    by (simp add: autofix_def rmdir_def)
qed

lemma upload_flattens:
  assumes "distinct (map fst inner)" and "map_of inner w = None"
  shows "fst (api_upload (Some \<lparr>stem = U, content = Zip [(w, Dir inner)]\<rparr>) s) = Redirect ''/''
       \<and> map_of (bots_fs (snd (api_upload (Some \<lparr>stem = U, content = Zip [(w, Dir inner)]\<rparr>) s))) U
           = Some (Dir inner)"
  using autofix_flattens[OF assms]
  by (simp add: api_upload_def Let_def split_beta nested_notice_def sendLog_def status_update_def
      writeDb_def readDb_def update_conv' split: option.splits)

text \<open>
  Claim C7. The block flattens one wrapper directory, once: \<open>upload_flattens\<close> gives the
  working directory the wrapper's own listing, and a wrapper nested in it stays. That
  needs the wrapper to hold no entry of its own name. For an archive whose wrapper
  \<open>w\<close> holds an entry \<open>w\<close> (\<open>mybot/mybot/...\<close>), the rename of that entry onto the
  wrapper throws: the upload answers 500, the working directory still holds the wrapper
  \<open>w\<close>, with the entry \<open>w\<close> inside it, and the registry is not written.
\<close>

theorem upload_wrapper_name_collision:
  assumes "map_of inner w = Some n"
  shows "fst (api_upload (Some \<lparr>stem = U, content = Zip [(w, Dir inner)]\<rparr>) s)
           = Text 500 ''Error processing upload.''
       \<and> (\<exists>d inner'.
             map_of (bots_fs (snd (api_upload (Some \<lparr>stem = U, content = Zip [(w, Dir inner)]\<rparr>) s))) U
               = Some (Dir d)
             \<and> map_of d w = Some (Dir inner') \<and> map_of inner' w = Some n)
       \<and> db_file (snd (api_upload (Some \<lparr>stem = U, content = Zip [(w, Dir inner)]\<rparr>) s)) = db_file s"
proof -
  obtain e d where af: "autofix [(w, Dir inner)] = (e, d)"
    by (cases "autofix [(w, Dir inner)]")
  from autofix_collision[OF assms] af
  obtain err inner' where e: "e = Some err"
    and d: "map_of d w = Some (Dir inner')" "map_of inner' w = Some n"
    by auto
  show ?thesis
    using af e d
    by (simp add: api_upload_def Let_def upload_failed_def nested_notice_def sendLog_def
        update_conv' split: option.splits)
qed

theorem upload_wrapper_name_collision_witness:
  "api_upload (Some \<lparr>stem = ''mybot'', content = Zip [(''mybot'',
       Dir [(''README.md'', File SyntaxError), (''mybot'', Dir [(''index.js'', File SyntaxError)])])]\<rparr>)
     (init demo_env)
   = (Text 500 ''Error processing upload.'',
      (init demo_env)\<lparr>
        bots_fs := [(''mybot'', Dir [(''mybot'', Dir [(''mybot'', Dir [(''index.js'', File SyntaxError)])]),
                                    (''README.md'', File SyntaxError)])],
        emitted := [Log ''[mybot]: --- Nested directory detected. Promoting contents... ---'',
                    Log ''[mybot]: --- Error uploading mybot ---'']\<rparr>)"
proof -
  let ?r = "api_upload (Some \<lparr>stem = ''mybot'', content = Zip [(''mybot'',
       Dir [(''README.md'', File SyntaxError), (''mybot'', Dir [(''index.js'', File SyntaxError)])])]\<rparr>)
     (init demo_env)"
  have "map_of [(''README.md'', File SyntaxError), (''mybot'', Dir [(''index.js'', File SyntaxError)])]
          ''mybot'' = Some (Dir [(''index.js'', File SyntaxError)])"
    by simp
  from upload_wrapper_name_collision[OF this, of "''mybot''" "init demo_env"]
  have "fst ?r = Text 500 ''Error processing upload.''" by simp
  moreover have "snd ?r = (init demo_env)\<lparr>
        bots_fs := [(''mybot'', Dir [(''mybot'', Dir [(''mybot'', Dir [(''index.js'', File SyntaxError)])]),
                                    (''README.md'', File SyntaxError)])],
        emitted := [Log ''[mybot]: --- Nested directory detected. Promoting contents... ---'',
                    Log ''[mybot]: --- Error uploading mybot ---'']\<rparr>"
    by (simp add: panel_defs)
  ultimately show ?thesis by (simp add: prod_eq_iff)
qed

subsection \<open>Restart\<close>

lemma find_route_append:
  "find_route rs req = Some x \<Longrightarrow> find_route (rs @ rs') req = Some x"
  by (induction rs) (auto split: option.splits)

text \<open>
  Handling a restart request for a unit that is not running never ends in a start: the
  handler registers one more route that does nothing and hands the same request to the
  route table again, which selects the restart handler again, until the call stack is
  used up. At every depth the outcome is \<open>CallStackExceeded\<close>, with the running
  table, the processes and the timers as they were.
\<close>

lemma redispatch_never_starts:
  assumes "find_route (routes s) req = Some (HRestart, U)"
    and "map_of (runningBots s) U = None"
  shows "fst (dispatch depth req s) = CallStackExceeded
       \<and> runningBots (snd (dispatch depth req s)) = runningBots s
       \<and> procs (snd (dispatch depth req s)) = procs s
       \<and> timers (snd (dispatch depth req s)) = timers s"
  using assms
proof (induction depth arbitrary: s)
  case 0
  then show ?case by simp
next
  case (Suc depth)
  let ?s' = "app_get start_pattern HNoop s"
  have r: "find_route (routes ?s') req = Some (HRestart, U)"
    using Suc.prems(1) by (simp add: app_get_def find_route_append)
  have b: "map_of (runningBots ?s') U = None"
    using Suc.prems(2) by (simp add: app_get_def)
  have "dispatch (Suc depth) req s = dispatch depth req ?s'"
    using Suc.prems by simp
  with Suc.IH[OF r b] show ?case by (simp add: app_get_def)
qed

lemma restart_running:
  assumes "find_route (routes s) req = Some (HRestart, U)"
    and "map_of (runningBots s) U = Some pid"
  shows "dispatch (Suc depth) req s =
           (NoResponse, s\<lparr>procs := kill pid (attach pid (RestartOnce req) (procs s))\<rparr>)"
  using assms by simp

lemma kill_attach_nth:
  assumes "pid < length ps"
  shows "kill pid (attach pid l ps) ! pid = (ps ! pid)\<lparr>p_close := p_close (ps ! pid) @ [l], p_killed := True\<rparr>"
    and "length (kill pid (attach pid l ps)) = length ps"
  using assms by (simp_all add: kill_def attach_def on_close_def)

text \<open>
  The route table only grows at its end, so in every state a run reaches from a fresh
  panel a request is handled by the route that handled it at first:
  \<open>GET /api/restart/U\<close> by the restart handler, \<open>GET /api/start/U\<close> by the start
  handler (the routes that restart registers for that path come later in the table).
\<close>

lemma routes_readDb: "routes (snd (readDb s)) = routes s"
  by (simp add: readDb_def split: option.splits)

lemma routes_sendLog: "routes (sendLog b m s) = routes s"
  and routes_status_update: "routes (status_update s) = routes s"
  and routes_writeDb: "routes (writeDb d s) = routes s"
  by (simp_all add: sendLog_def status_update_def writeDb_def)

lemma routes_nested_notice: "routes (nested_notice b d s) = routes s"
  by (simp add: nested_notice_def routes_sendLog split: list.splits prod.splits node.splits)

lemma routes_api_upload: "routes (snd (api_upload f s)) = routes s"
  by (simp add: api_upload_def upload_failed_def Let_def split_beta routes_readDb routes_sendLog
      routes_status_update routes_writeDb routes_nested_notice
      split: option.splits archive.splits)

lemma routes_handlers:
  "routes (snd (api_bots s)) = routes s"
  "routes (snd (api_start U s)) = routes s"
  "routes (snd (api_stop U s)) = routes s"
  "routes (snd (api_install U s)) = routes s"
  "routes (snd (api_delete U s)) = routes s"
  "routes (snd (api_env_get U s)) = routes s"
  "routes (snd (api_env_post U k v s)) = routes s"
  "routes (snd (api_env_delete U k s)) = routes s"
  by (simp_all add: api_bots_def api_start_def api_stop_def api_install_def api_delete_def
      api_env_get_def api_env_post_def api_env_delete_def Let_def split_beta routes_readDb
      routes_sendLog routes_status_update routes_writeDb split: option.splits)

lemma routes_dispatch: "\<exists>extra. routes (snd (dispatch depth req s)) = routes s @ extra"
proof (induction depth arbitrary: s)
  case 0
  then show ?case by simp
next
  case (Suc depth)
  have restart: "\<exists>extra. routes (snd (api_restart depth U req s)) = routes s @ extra" for U
    using Suc.IH[of "app_get start_pattern HNoop s"]
    by (auto simp: app_get_def split: option.splits)
  show ?case
  proof (cases "find_route (routes s) req")
    case None
    then show ?thesis by simp
  next
    case (Some hb)
    obtain h U where hb: "hb = (h, U)" by (cases hb)
    show ?thesis
      using restart[of U] Some hb
      by (cases h) (simp_all add: routes_handlers routes_api_upload del: api_restart.simps)
  qed
qed

lemma routes_run_listener: "routes (run_listener code l s) = routes s"
  by (cases l) (simp_all add: sendLog_def status_update_def)

lemma routes_listeners: "routes (foldl (\<lambda>st l. run_listener code l st) s ls) = routes s"
  by (induction ls arbitrary: s) (simp_all add: routes_run_listener)

lemma routes_step: "\<exists>extra. routes (step depth ev s) = routes s @ extra"
proof (cases ev)
  case (Request req)
  then show ?thesis by (simp add: routes_dispatch)
next
  case (Close pid code)
  then show ?thesis by (simp add: proc_close_def Let_def routes_listeners)
next
  case (Timer i)
  show ?thesis
  proof (cases "i < length (timers s)")
    case True
    let ?s' = "app_get start_pattern HNoop (s\<lparr>timers := take i (timers s) @ drop (Suc i) (timers s)\<rparr>)"
    from routes_dispatch[of depth "snd (timers s ! i)" ?s']
    obtain extra where "routes (snd (dispatch depth (snd (timers s ! i)) ?s')) = routes ?s' @ extra" ..
    then show ?thesis
      using Timer True by (simp add: timer_fire_def app_get_def)
  next
    case False
    then show ?thesis using Timer by (simp add: timer_fire_def)
  qed
qed

lemma routes_run: "\<exists>extra. routes (run depth evs s) = routes s @ extra"
  unfolding run_def
proof (induction evs arbitrary: s)
  case Nil
  then show ?case by simp
next
  case (Cons ev evs)
  obtain e1 where e1: "routes (step depth ev s) = routes s @ e1"
    using routes_step by blast
  obtain e2 where "routes (foldl (\<lambda>st ev. step depth ev st) (step depth ev s) evs) = routes (step depth ev s) @ e2"
    using Cons.IH by blast
  then show ?case using e1 by simp
qed

lemma route_reached:
  assumes "find_route initial_routes req = Some x"
  shows "find_route (routes (run depth evs (init penv))) req = Some x"
proof -
  obtain extra where "routes (run depth evs (init penv)) = initial_routes @ extra"
    using routes_run[of depth evs "init penv"] by (auto simp: init_def)
  then show ?thesis
    using assms by (simp add: find_route_append)
qed

lemma restart_route_reached:
  assumes "U \<noteq> []"
  shows "find_route (routes (run depth evs (init penv))) (get_request [''api'', ''restart'', U])
           = Some (HRestart, U)"
  using assms
  by (intro route_reached) (simp add: initial_routes_def get_request_def start_pattern_def)

lemma start_route_reached:
  assumes "U \<noteq> []"
  shows "dispatch (Suc depth) (get_request [''api'', ''start'', U]) (run depth' evs (init penv))
           = api_start U (run depth' evs (init penv))"
proof -
  have "find_route initial_routes (get_request [''api'', ''start'', U]) = Some (HStart, U)"
    using assms by (simp add: initial_routes_def get_request_def start_pattern_def)
  from route_reached[OF this] show ?thesis by simp
qed

text \<open>
  Claim C2. Let \<open>U\<close> be running, its process alive and carrying the one listener
  \<open>start\<close> attached, and let the restart request reach the restart handler. The
  handler requests termination and attaches its one-shot listener. When the process
  closes, the entry of \<open>U\<close> is removed and one timer of 1000 ms is set. When that timer
  fires, its callback registers a route that does nothing and hands the restart request
  back to the route table: by \<open>redispatch_never_starts\<close> this ends in
  \<open>CallStackExceeded\<close> at every stack depth. Afterwards no timer is pending, \<open>U\<close>
  has no entry in \<open>runningBots\<close> and no process has been spawned: the restart leaves
  zero running instances, not one.
\<close>

theorem restart_never_starts:
  assumes route: "find_route (routes s) req = Some (HRestart, U)"
    and running: "map_of (runningBots s) U = Some pid"
    and alive: "pid < length (procs s)" "\<not> p_exited (procs s ! pid)"
    and fresh: "p_close (procs s ! pid) = [StartClose U]" "timers s = []"
  shows "let s1 = snd (dispatch (Suc depth) req s);
             s2 = proc_close pid code s1;
             s3 = snd (timer_fire depth' 0 s2)
         in p_killed (procs s1 ! pid) \<and> map_of (runningBots s1) U = Some pid
          \<and> timers s2 = [(1000, req)] \<and> map_of (runningBots s2) U = None
          \<and> fst (timer_fire depth' 0 s2) = CallStackExceeded
          \<and> timers s3 = [] \<and> map_of (runningBots s3) U = None
          \<and> length (procs s3) = length (procs s)"
proof -
  define s1 where "s1 = s\<lparr>procs := kill pid (attach pid (RestartOnce req) (procs s))\<rparr>"
  define s2 where "s2 = proc_close pid code s1"
  define s2' where "s2' = app_get start_pattern HNoop (s2\<lparr>timers := []\<rparr>)"
  have d1: "dispatch (Suc depth) req s = (NoResponse, s1)"
    unfolding s1_def using route running by (rule restart_running)
  have p1: "procs s1 ! pid = (procs s ! pid)\<lparr>p_close := [StartClose U, RestartOnce req], p_killed := True\<rparr>"
    and l1: "length (procs s1) = length (procs s)"
    using kill_attach_nth[OF alive(1), of "RestartOnce req"] fresh(1) by (simp_all add: s1_def)
  have e1: "\<not> p_exited (procs s1 ! pid)" "p_killed (procs s1 ! pid)"
    using p1 alive(2) by simp_all
  have s2: "timers s2 = [(1000, req)]" "runningBots s2 = AList.delete U (runningBots s)"
    "routes s2 = routes s" "length (procs s2) = length (procs s)"
    using l1 alive(1) e1(1) p1 fresh(2)
    by (simp_all add: s2_def proc_close_def Let_def sendLog_def status_update_def s1_def)
  have r: "find_route (routes s2') req = Some (HRestart, U)"
    using route by (simp add: s2'_def app_get_def s2(3) find_route_append)
  have b: "map_of (runningBots s2') U = None"
    by (simp add: s2'_def app_get_def s2(2) delete_conv')
  have t: "timer_fire depth' 0 s2 = dispatch depth' req s2'"
    by (simp add: timer_fire_def s2(1) s2'_def)
  from redispatch_never_starts[OF r b, of depth']
  have "fst (timer_fire depth' 0 s2) = CallStackExceeded"
    and "runningBots (snd (timer_fire depth' 0 s2)) = runningBots s2'"
    and "procs (snd (timer_fire depth' 0 s2)) = procs s2'"
    and "timers (snd (timer_fire depth' 0 s2)) = timers s2'"
    unfolding t by simp_all
  moreover have "timers s2' = []" "procs s2' = procs s2" "runningBots s2' = runningBots s2"
    by (simp_all add: s2'_def app_get_def)
  ultimately show ?thesis
    using d1 e1(2) s2 running
    by (simp add: Let_def delete_conv' flip: s2_def) (simp add: s1_def)
qed

theorem restart_never_starts_witness:
  "map_of (runningBots echo_running) ''echo-bot'' = Some 0
   \<and> (let s1 = snd (dispatch (Suc 0) restart_echo echo_running);
          s2 = proc_close 0 ''null'' s1;
          s3 = snd (timer_fire 3 0 s2)
      in p_killed (procs s1 ! 0) \<and> timers s2 = [(1000, restart_echo)]
       \<and> fst (timer_fire 3 0 s2) = CallStackExceeded
       \<and> timers s3 = [] \<and> map_of (runningBots s3) ''echo-bot'' = None
       \<and> length (procs s3) = 1)"
proof -
  have route: "find_route (routes echo_running) restart_echo = Some (HRestart, ''echo-bot'')"
    by (simp add: echo_running_eq restart_echo_def get_request_def initial_routes_def start_pattern_def)
  have running: "map_of (runningBots echo_running) ''echo-bot'' = Some 0"
    by (simp add: echo_running_eq)
  have alive: "0 < length (procs echo_running)" "\<not> p_exited (procs echo_running ! 0)"
    by (simp_all add: echo_running_eq)
  have fresh: "p_close (procs echo_running ! 0) = [StartClose ''echo-bot'']" "timers echo_running = []"
    by (simp_all add: echo_running_eq)
  have len: "length (procs echo_running) = 1"
    by (simp add: echo_running_eq)
  from restart_never_starts[OF route running alive fresh, of 0 "''null''" 3]
  show ?thesis
    using running len by (simp add: Let_def)
qed

text \<open>
  Claim C3. Two restart requests for a running unit, before its process has closed,
  leave two one-shot \<open>'close'\<close> listeners of the restart handler on that process: each
  call appends one, so the listeners accumulate.
\<close>

theorem restart_twice_attaches_two_observers:
  assumes route: "find_route (routes s) req = Some (HRestart, U)"
    and running: "map_of (runningBots s) U = Some pid"
    and alive: "pid < length (procs s)"
  shows "let s1 = snd (dispatch (Suc depth) req s);
             s2 = snd (dispatch (Suc depth) req s1)
         in p_close (procs s2 ! pid) = p_close (procs s ! pid) @ [RestartOnce req, RestartOnce req]
          \<and> length (filter is_once (p_close (procs s2 ! pid)))
              = length (filter is_once (p_close (procs s ! pid))) + 2
          \<and> p_exited (procs s2 ! pid) = p_exited (procs s ! pid)"
proof -
  define s1 where "s1 = s\<lparr>procs := kill pid (attach pid (RestartOnce req) (procs s))\<rparr>"
  define s2 where "s2 = s1\<lparr>procs := kill pid (attach pid (RestartOnce req) (procs s1))\<rparr>"
  have d1: "dispatch (Suc depth) req s = (NoResponse, s1)"
    unfolding s1_def using route running by (rule restart_running)
  have r1: "find_route (routes s1) req = Some (HRestart, U)" "map_of (runningBots s1) U = Some pid"
    using route running by (simp_all add: s1_def)
  have d2: "dispatch (Suc depth) req s1 = (NoResponse, s2)"
    unfolding s2_def using r1 by (rule restart_running)
  have p1: "procs s1 ! pid = (procs s ! pid)\<lparr>p_close := p_close (procs s ! pid) @ [RestartOnce req], p_killed := True\<rparr>"
    and l1: "pid < length (procs s1)"
    using kill_attach_nth[OF alive, of "RestartOnce req"] alive by (simp_all add: s1_def)
  have p2: "procs s2 ! pid = (procs s1 ! pid)\<lparr>p_close := p_close (procs s1 ! pid) @ [RestartOnce req], p_killed := True\<rparr>"
    using kill_attach_nth[OF l1, of "RestartOnce req"] by (simp add: s2_def)
  show ?thesis
    using d1 d2 p1 p2 by (simp add: Let_def)
qed

theorem restart_twice_attaches_two_observers_witness:
  "map_of (runningBots echo_running) ''echo-bot'' = Some 0
   \<and> p_close (procs (snd (dispatch (Suc 0) restart_echo
        (snd (dispatch (Suc 0) restart_echo echo_running)))) ! 0)
     = [StartClose ''echo-bot'', RestartOnce restart_echo, RestartOnce restart_echo]"
proof -
  have route: "find_route (routes echo_running) restart_echo = Some (HRestart, ''echo-bot'')"
    by (simp add: echo_running_eq restart_echo_def get_request_def initial_routes_def start_pattern_def)
  have running: "map_of (runningBots echo_running) ''echo-bot'' = Some 0"
    by (simp add: echo_running_eq)
  have alive: "0 < length (procs echo_running)"
    by (simp add: echo_running_eq)
  have "p_close (procs echo_running ! 0) = [StartClose ''echo-bot'']"
    by (simp add: echo_running_eq)
  with restart_twice_attaches_two_observers[OF route running alive, of 0]
  show ?thesis
    using running by (simp add: Let_def)
qed

end
